theory Spec2Isabelle
  imports Main "HOL-Library.Finite_Map" "HOL-Library.Sublist"
begin

section \<open>Values and the session mapping\<close>

text \<open>
  The values that \<^verbatim>\<open>st.session_state\<close> holds, as far as \<^verbatim>\<open>st_control/controllers.py\<close> handles
  them: \<^verbatim>\<open>None\<close>, integers, strings, and dictionaries with string keys (the two registries
  \<^verbatim>\<open>__default_values__\<close> and \<^verbatim>\<open>__controlled_widgets__\<close> are such dictionaries, stored in the
  session under their own names). HOL equality on \<open>val\<close> is Python's \<^verbatim>\<open>==\<close> on these values:
  two dictionaries are equal when they have the same keys with equal values, whatever the
  insertion order. Values are immutable: an in-place update of a dictionary held by the
  session is the session updated at the dictionary's name, and a snapshot holds the values
  its fields had, not references to them.

  The session is the mapping of the host framework, with the three operations the class
  uses: the membership test, the read and the write by key. They do not fail, except that
  reading a missing name as an attribute raises.
\<close>

datatype val = VNone | VInt int | VStr string | VDict "(string, val) fmap"

type_synonym session_state = "string \<rightharpoonup> val"

text \<open>
  The exceptions: the three that the statements of the class can raise, and \<open>Raised\<close> for
  whatever the caller's code raises (a trigger function, the block of a \<^verbatim>\<open>with\<close> statement).
  A call returns a value or raises, and leaves a session behind in both cases: what was
  written before a raise stays written.
\<close>

datatype exn = KeyError | AttributeError | TypeError | Raised string

type_synonym 'a result = "(exn + 'a) \<times> session_state"

definition DEFAULT_VALUES :: string where
  "DEFAULT_VALUES = ''__default_values__''"

definition CONTROLLED_WIDGETS :: string where
  "CONTROLLED_WIDGETS = ''__controlled_widgets__''"

definition TRACKED :: string where
  "TRACKED = ''tracked_trigger_fields''"

text \<open>\<^verbatim>\<open>st.session_state.get(k)\<close>: the value, or \<^verbatim>\<open>None\<close> for a missing key.\<close>

definition session_get :: "session_state \<Rightarrow> string \<Rightarrow> val" where
  "session_get s k = (case s k of None \<Rightarrow> VNone | Some v \<Rightarrow> v)"

text \<open>\<^verbatim>\<open>st.session_state.name\<close>: reading an attribute that is not in the session raises.\<close>

definition session_getattr :: "session_state \<Rightarrow> string \<Rightarrow> exn + val" where
  "session_getattr s n = (case s n of None \<Rightarrow> Inl AttributeError | Some v \<Rightarrow> Inr v)"

text \<open>\<^verbatim>\<open>d[k]\<close>, \<^verbatim>\<open>d[k] = v\<close>, \<^verbatim>\<open>k in d\<close> and \<^verbatim>\<open>d.items()\<close> for a string \<open>k\<close>.\<close>

definition getitem :: "val \<Rightarrow> string \<Rightarrow> exn + val" where
  "getitem d k =
     (case d of
        VDict m \<Rightarrow> (case fmlookup m k of None \<Rightarrow> Inl KeyError | Some v \<Rightarrow> Inr v)
      | _ \<Rightarrow> Inl TypeError)"

definition setitem :: "val \<Rightarrow> string \<Rightarrow> val \<Rightarrow> exn + val" where
  "setitem d k v =
     (case d of
        VDict m \<Rightarrow> Inr (VDict (fmupd k v m))
      | _ \<Rightarrow> Inl TypeError)"

definition contains :: "val \<Rightarrow> string \<Rightarrow> exn + bool" where
  "contains d k =
     (case d of
        VDict m \<Rightarrow> Inr (fmlookup m k \<noteq> None)
      | VStr t \<Rightarrow> Inr (sublist k t)
      | _ \<Rightarrow> Inl TypeError)"

definition items :: "val \<Rightarrow> exn + (string, val) fmap" where
  "items d = (case d of VDict m \<Rightarrow> Inr m | _ \<Rightarrow> Inl AttributeError)"

section \<open>ControlledWidget\<close>

text \<open>
  The instance: \<^verbatim>\<open>trigger_fields\<close> and \<^verbatim>\<open>trigger_func\<close> are optional. A trigger function is
  caller-supplied code with no argument: it reads the session, and nothing stops it from
  writing to it or raising.
\<close>

record ControlledWidget =
  key :: string
  default_value :: val
  trigger_fields :: "string list option"
  trigger_func :: "(session_state \<Rightarrow> bool result) option"

text \<open>
  The dictionary comprehension
  \<^verbatim>\<open>{field: st.session_state.get(field) for field in self.trigger_fields or []}\<close>.
\<close>

definition fields_or_empty :: "ControlledWidget \<Rightarrow> string list" where
  "fields_or_empty self = (case trigger_fields self of None \<Rightarrow> [] | Some fs \<Rightarrow> fs)"

definition tracked_values :: "session_state \<Rightarrow> string list \<Rightarrow> (string, val) fmap" where
  "tracked_values s fs = fold (\<lambda>field m. fmupd field (session_get s field) m) fs fmempty"

text \<open>
  \<^verbatim>\<open>__update_trigger_fields_session_state\<close>: the right-hand side
  \<^verbatim>\<open>{'tracked_trigger_fields': {...}}\<close> is built first, then the registry is read from the
  session and the entry of \<^verbatim>\<open>self.key\<close> replaced in it.
\<close>

definition tracked_entry :: "session_state \<Rightarrow> string list \<Rightarrow> val" where
  "tracked_entry s fs = VDict (fmupd TRACKED (VDict (tracked_values s fs)) fmempty)"

definition update_trigger_fields_session_state :: "ControlledWidget \<Rightarrow> session_state \<Rightarrow> unit result" where
  "update_trigger_fields_session_state self s =
     (let entry = tracked_entry s (fields_or_empty self)
      in case session_getattr s CONTROLLED_WIDGETS of
           Inl e \<Rightarrow> (Inl e, s)
         | Inr reg \<Rightarrow>
             (case setitem reg (key self) entry of
                Inl e \<Rightarrow> (Inl e, s)
              | Inr reg' \<Rightarrow> (Inr (), s(CONTROLLED_WIDGETS \<mapsto> reg'))))"

text \<open>\<^verbatim>\<open>__init__\<close>, statement by statement.\<close>

definition init ::
  "string \<Rightarrow> val \<Rightarrow> string list option \<Rightarrow> (session_state \<Rightarrow> bool result) option
     \<Rightarrow> session_state \<Rightarrow> ControlledWidget result" where
  "init k d tf tfn s =
     (let self = \<lparr>key = k, default_value = d, trigger_fields = tf, trigger_func = tfn\<rparr>;
          s1 = (if s DEFAULT_VALUES = None then s(DEFAULT_VALUES \<mapsto> VDict fmempty) else s);
          s2 = (if s1 k = None then s1(k \<mapsto> d) else s1)
      in case session_getattr s2 DEFAULT_VALUES of
           Inl e \<Rightarrow> (Inl e, s2)
         | Inr dv \<Rightarrow>
             (case setitem dv k d of
                Inl e \<Rightarrow> (Inl e, s2)
              | Inr dv' \<Rightarrow>
                  (let s3 = s2(DEFAULT_VALUES \<mapsto> dv');
                       s4 = (if s3 CONTROLLED_WIDGETS = None
                             then s3(CONTROLLED_WIDGETS \<mapsto> VDict fmempty) else s3)
                   in case session_getattr s4 CONTROLLED_WIDGETS of
                        Inl e \<Rightarrow> (Inl e, s4)
                      | Inr reg \<Rightarrow>
                          (case contains reg k of
                             Inl e \<Rightarrow> (Inl e, s4)
                           | Inr True \<Rightarrow> (Inr self, s4)
                           | Inr False \<Rightarrow>
                               (case update_trigger_fields_session_state self s4 of
                                  (Inl e, s5) \<Rightarrow> (Inl e, s5)
                                | (Inr _, s5) \<Rightarrow> (Inr self, s5))))))"

text \<open>
  The two setters change the instance; \<^verbatim>\<open>set_trigger_fields\<close> then rewrites the registry
  entry. The instance is changed also when that raises.
\<close>

definition set_trigger_fields ::
  "ControlledWidget \<Rightarrow> string list \<Rightarrow> session_state \<Rightarrow> ControlledWidget \<times> unit result" where
  "set_trigger_fields self fs s =
     (let self' = self\<lparr>trigger_fields := Some fs\<rparr>
      in (self', update_trigger_fields_session_state self' s))"

definition set_trigger_func ::
  "ControlledWidget \<Rightarrow> (session_state \<Rightarrow> bool result) \<Rightarrow> ControlledWidget" where
  "set_trigger_func self f = self\<lparr>trigger_func := Some f\<rparr>"

text \<open>
  The two properties only read:
  \<^verbatim>\<open>st.session_state.__controlled_widgets__[self.key]['tracked_trigger_fields']\<close> and
  \<^verbatim>\<open>st.session_state.get(self.key)\<close>.
\<close>

definition trigger_field_values :: "ControlledWidget \<Rightarrow> session_state \<Rightarrow> exn + val" where
  "trigger_field_values self s =
     (case session_getattr s CONTROLLED_WIDGETS of
        Inl e \<Rightarrow> Inl e
      | Inr reg \<Rightarrow>
          (case getitem reg (key self) of
             Inl e \<Rightarrow> Inl e
           | Inr entry \<Rightarrow> getitem entry TRACKED))"

definition widget_value :: "ControlledWidget \<Rightarrow> session_state \<Rightarrow> val" where
  "widget_value self s = session_get s (key self)"

definition reset :: "ControlledWidget \<Rightarrow> session_state \<Rightarrow> unit result" where
  "reset self s =
     update_trigger_fields_session_state self (s(key self \<mapsto> default_value self))"

text \<open>
  \<^verbatim>\<open>has_triggered\<close>. The loop over \<^verbatim>\<open>self.trigger_field_values.items()\<close> returns \<^verbatim>\<open>True\<close> at the
  first item whose field reads differently from the recorded value and \<^verbatim>\<open>False\<close> when it
  runs out of items; its body writes nothing, so the result is that of asking whether all
  items read as recorded, in any order.
\<close>

definition has_triggered :: "ControlledWidget \<Rightarrow> session_state \<Rightarrow> bool result" where
  "has_triggered self s =
     (case trigger_func self of
        Some f \<Rightarrow> f s
      | None \<Rightarrow>
          (case trigger_fields self of
             Some _ \<Rightarrow>
               (case trigger_field_values self s of
                  Inl e \<Rightarrow> (Inl e, s)
                | Inr tracked \<Rightarrow>
                    (case items tracked of
                       Inl e \<Rightarrow> (Inl e, s)
                     | Inr m \<Rightarrow>
                         (Inr (\<not> fmpred (\<lambda>trigger_field v. session_get s trigger_field = v) m), s)))
           | None \<Rightarrow> (Inr True, s)))"

text \<open>
  \<^verbatim>\<open>__enter__\<close> and \<^verbatim>\<open>__exit__\<close>. The exit takes the exception of the block, if any, and does
  not look at it; it returns \<^verbatim>\<open>None\<close>, so that exception is not suppressed.
\<close>

definition enter :: "ControlledWidget \<Rightarrow> session_state \<Rightarrow> ControlledWidget result" where
  "enter self s =
     (case has_triggered self s of
        (Inl e, s1) \<Rightarrow> (Inl e, s1)
      | (Inr b, s1) \<Rightarrow> (Inr self, if b then s1(key self \<mapsto> default_value self) else s1))"

definition exit :: "ControlledWidget \<Rightarrow> exn option \<Rightarrow> session_state \<Rightarrow> unit result" where
  "exit self exc s = update_trigger_fields_session_state self s"

text \<open>
  The statement \<^verbatim>\<open>with widget as ctrl: body\<close>, as Python runs it: no exit when the entry
  raises; otherwise the exit runs after the block, whether the block returned or raised,
  and the block's exception goes on to the caller unless the exit raises itself.
\<close>

definition with_widget ::
  "ControlledWidget \<Rightarrow> (ControlledWidget \<Rightarrow> session_state \<Rightarrow> 'a result) \<Rightarrow> session_state \<Rightarrow> 'a result" where
  "with_widget self body s =
     (case enter self s of
        (Inl e, s1) \<Rightarrow> (Inl e, s1)
      | (Inr ctrl, s1) \<Rightarrow>
          (case body ctrl s1 of
             (r, s2) \<Rightarrow>
               (case exit self (case r of Inl e \<Rightarrow> Some e | Inr _ \<Rightarrow> None) s2 of
                  (Inl e', s3) \<Rightarrow> (Inl e', s3)
                | (Inr _, s3) \<Rightarrow> (r, s3))))"

section \<open>Well-formed registries\<close>

text \<open>
  The dictionary stored under a name (empty when there is none), and whether a name is
  either not in the session or holds a dictionary. Both registries are in this state from
  the first construction on, unless other code stores something else under their names.
\<close>

definition dict_at :: "session_state \<Rightarrow> string \<Rightarrow> (string, val) fmap" where
  "dict_at s n = (case s n of Some (VDict m) \<Rightarrow> m | _ \<Rightarrow> fmempty)"

definition is_dict_or_absent :: "session_state \<Rightarrow> string \<Rightarrow> bool" where
  "is_dict_or_absent s n =
     (case s n of None \<Rightarrow> True | Some (VDict m) \<Rightarrow> True | Some _ \<Rightarrow> False)"

section \<open>The example page\<close>

text \<open>
  The widgets of \<^verbatim>\<open>streamlit_app.py\<close>: a text input reset by two fields, a widget with neither
  trigger fields nor a trigger function, and one with the trigger function
  \<^verbatim>\<open>lambda: st.session_state['field1'] == 'reset'\<close>, which raises when \<^verbatim>\<open>field1\<close> is not in
  the session. The page starts with both fields empty.
\<close>

definition demo_widget :: ControlledWidget where
  "demo_widget =
     \<lparr>key = ''my_text_input'', default_value = VStr ''initial value'',
      trigger_fields = Some [''field1'', ''field2''], trigger_func = None\<rparr>"

definition field1_widget :: ControlledWidget where
  "field1_widget =
     \<lparr>key = ''field1'', default_value = VStr '''',
      trigger_fields = None, trigger_func = None\<rparr>"

definition field1_is_reset :: "session_state \<Rightarrow> bool result" where
  "field1_is_reset s =
     (case s ''field1'' of
        None \<Rightarrow> (Inl KeyError, s)
      | Some v \<Rightarrow> (Inr (v = VStr ''reset''), s))"

definition another_widget :: ControlledWidget where
  "another_widget =
     \<lparr>key = ''another_widget'', default_value = VStr ''another initial value'',
      trigger_fields = None, trigger_func = Some field1_is_reset\<rparr>"

definition demo_session :: session_state where
  "demo_session = [''field1'' \<mapsto> VStr '''', ''field2'' \<mapsto> VStr '''']"

text \<open>The session once the text input has been constructed on the starting page.\<close>

definition demo_seeded :: session_state where
  "demo_seeded =
     snd (init ''my_text_input'' (VStr ''initial value'') (Some [''field1'', ''field2'']) None
            demo_session)"

text \<open>
  A block for the \<^verbatim>\<open>with\<close> statement: the text input writes what the user typed under the
  widget's key, as on the page, and then the block raises.
\<close>

definition failing_block :: "ControlledWidget \<Rightarrow> session_state \<Rightarrow> unit result" where
  "failing_block ctrl s = (Inl (Raised ''render failed''), s(key ctrl \<mapsto> VStr ''typed''))"

text \<open>
  The text input watching one field only, the session its construction leaves, and two
  sessions to construct it on: an empty one, and one where the field holds \<^verbatim>\<open>None\<close>.
\<close>

definition field1_only_widget :: ControlledWidget where
  "field1_only_widget =
     \<lparr>key = ''my_text_input'', default_value = VStr ''initial value'',
      trigger_fields = Some [''field1''], trigger_func = None\<rparr>"

definition empty_session :: session_state where
  "empty_session = Map.empty"

definition field1_None_session :: session_state where
  "field1_None_session = [''field1'' \<mapsto> VNone]"

definition seeded_on_field1 :: "session_state \<Rightarrow> session_state" where
  "seeded_on_field1 s =
     snd (init ''my_text_input'' (VStr ''initial value'') (Some [''field1'']) None s)"

section \<open>Basic facts\<close>

lemma registry_names_distinct [simp]:
  "DEFAULT_VALUES \<noteq> CONTROLLED_WIDGETS" "CONTROLLED_WIDGETS \<noteq> DEFAULT_VALUES"
  by (simp_all add: DEFAULT_VALUES_def CONTROLLED_WIDGETS_def)

lemma fold_tracked_lookup:
  "fmlookup (fold (\<lambda>field m. fmupd field (session_get s field) m) fs m0) f =
     (if f \<in> set fs then Some (session_get s f) else fmlookup m0 f)"
  by (induction fs arbitrary: m0) auto

lemma tracked_values_lookup:
  "fmlookup (tracked_values s fs) f = (if f \<in> set fs then Some (session_get s f) else None)"
  by (simp add: tracked_values_def fold_tracked_lookup)

lemma tracked_values_dom: "fmdom' (tracked_values s fs) = set fs"
  by (auto simp add: fmlookup_dom'_iff tracked_values_lookup split: if_splits)

lemma session_get_cong: "s' f = s f \<Longrightarrow> session_get s' f = session_get s f"
  by (simp add: session_get_def)

lemma fmpred_fmupd_iff:
  "fmpred P (fmupd k v m) \<longleftrightarrow> P k v \<and> fmpred (\<lambda>x y. x \<noteq> k \<longrightarrow> P x y) m"
  by (auto simp add: fmpred_iff)

lemma is_dict_or_absent_cases:
  "is_dict_or_absent s n \<Longrightarrow>
   s n = None \<and> dict_at s n = fmempty \<or> s n = Some (VDict (dict_at s n))"
  by (auto simp add: is_dict_or_absent_def dict_at_def split: option.splits val.splits)

subsection \<open>Rewriting the registry entry\<close>

lemma update_registry_dict:
  "s CONTROLLED_WIDGETS = Some (VDict reg) \<Longrightarrow>
   update_trigger_fields_session_state w s =
     (Inr (), s(CONTROLLED_WIDGETS \<mapsto>
        VDict (fmupd (key w) (tracked_entry s (fields_or_empty w)) reg)))"
  by (simp add: update_trigger_fields_session_state_def session_getattr_def setitem_def)

lemma update_elsewhere:
  "k \<noteq> CONTROLLED_WIDGETS \<Longrightarrow> snd (update_trigger_fields_session_state w s) k = s k"
  by (auto simp add: update_trigger_fields_session_state_def Let_def split: sum.splits)

lemma update_dom:
  "k \<in> dom s \<Longrightarrow> k \<in> dom (snd (update_trigger_fields_session_state w s))"
  by (auto simp add: update_trigger_fields_session_state_def Let_def split: sum.splits)

lemma trigger_field_values_after_update:
  "s CONTROLLED_WIDGETS = Some (VDict reg) \<Longrightarrow>
   trigger_field_values w (snd (update_trigger_fields_session_state w s)) =
     Inr (VDict (tracked_values s (fields_or_empty w)))"
  by (simp add: update_registry_dict trigger_field_values_def session_getattr_def getitem_def
      tracked_entry_def)

lemma trigger_field_values_cong:
  "s' CONTROLLED_WIDGETS = s CONTROLLED_WIDGETS \<Longrightarrow>
   trigger_field_values w s' = trigger_field_values w s"
  by (simp add: trigger_field_values_def session_getattr_def)


subsection \<open>The trigger check\<close>

lemma has_triggered_no_func_session:
  "trigger_func w = None \<Longrightarrow> snd (has_triggered w s) = s"
  by (auto simp add: has_triggered_def split: option.splits sum.splits)

lemma has_triggered_snapshot:
  assumes "trigger_func w = None" and "trigger_fields w = Some fs"
    and "trigger_field_values w s = Inr (VDict snap)"
  shows "has_triggered w s =
           (Inr (\<exists>f v. fmlookup snap f = Some v \<and> session_get s f \<noteq> v), s)"
  using assms by (auto simp add: has_triggered_def items_def fmpred_iff)

lemma enter_dom:
  "key w \<in> dom (snd (has_triggered w s)) \<Longrightarrow> key w \<in> dom (snd (enter w s))"
  by (cases "has_triggered w s") (auto simp add: enter_def split: sum.splits)

subsection \<open>Construction\<close>

text \<open>\<open>init\<close> once the defaults registry is known to be a dictionary.\<close>

lemma init_unfold:
  fixes k d tf fn s
  defines "self \<equiv> \<lparr>key = k, default_value = d, trigger_fields = tf, trigger_func = fn\<rparr>"
  defines "s1 \<equiv> (if s DEFAULT_VALUES = None then s(DEFAULT_VALUES \<mapsto> VDict fmempty) else s)"
  defines "s2 \<equiv> (if s1 k = None then s1(k \<mapsto> d) else s1)"
  assumes dv: "s2 DEFAULT_VALUES = Some (VDict dv)"
  defines "s3 \<equiv> s2(DEFAULT_VALUES \<mapsto> VDict (fmupd k d dv))"
  defines "s4 \<equiv> (if s3 CONTROLLED_WIDGETS = None
                   then s3(CONTROLLED_WIDGETS \<mapsto> VDict fmempty) else s3)"
  assumes reg: "s4 CONTROLLED_WIDGETS = Some reg"
  shows "init k d tf fn s =
        (case contains reg k of
           Inl e \<Rightarrow> (Inl e, s4)
         | Inr True \<Rightarrow> (Inr self, s4)
         | Inr False \<Rightarrow>
             (case update_trigger_fields_session_state self s4 of
                (Inl e, s5) \<Rightarrow> (Inl e, s5)
              | (Inr _, s5) \<Rightarrow> (Inr self, s5)))"
  using dv reg unfolding init_def Let_def s1_def s2_def s3_def s4_def self_def
  by (simp add: session_getattr_def setitem_def)

text \<open>The sessions that \<open>init\<close> can leave behind, whatever the registries hold.\<close>

lemma init_session_cases:
  fixes k d tf fn s
  defines "self \<equiv> \<lparr>key = k, default_value = d, trigger_fields = tf, trigger_func = fn\<rparr>"
  defines "s1 \<equiv> (if s DEFAULT_VALUES = None then s(DEFAULT_VALUES \<mapsto> VDict fmempty) else s)"
  defines "s2 \<equiv> (if s1 k = None then s1(k \<mapsto> d) else s1)"
  shows "snd (init k d tf fn s) = s2
    \<or> (\<exists>dv s3 s4. s2 DEFAULT_VALUES = Some (VDict dv)
          \<and> s3 = s2(DEFAULT_VALUES \<mapsto> VDict (fmupd k d dv))
          \<and> s4 = (if s3 CONTROLLED_WIDGETS = None
                  then s3(CONTROLLED_WIDGETS \<mapsto> VDict fmempty) else s3)
          \<and> (snd (init k d tf fn s) = s4
             \<or> snd (init k d tf fn s) = snd (update_trigger_fields_session_state self s4)))"
proof -
  have "s2 DEFAULT_VALUES \<noteq> None"
    by (simp add: s1_def s2_def)
  then obtain v where v: "s2 DEFAULT_VALUES = Some v"
    by blast
  show ?thesis
  proof (cases "\<exists>dv. v = VDict dv")
    case False
    then have "setitem v k d = Inl TypeError"
      by (cases v) (simp_all add: setitem_def)
    then have "init k d tf fn s = (Inl TypeError, s2)"
      using v unfolding init_def Let_def s1_def s2_def
      by (simp add: session_getattr_def)
    then show ?thesis
      by simp
  next
    case True
    then obtain dv where dv: "s2 DEFAULT_VALUES = Some (VDict dv)"
      using v by blast
    define s3 where "s3 = s2(DEFAULT_VALUES \<mapsto> VDict (fmupd k d dv))"
    define s4 where "s4 = (if s3 CONTROLLED_WIDGETS = None
                             then s3(CONTROLLED_WIDGETS \<mapsto> VDict fmempty) else s3)"
    have "s4 CONTROLLED_WIDGETS \<noteq> None"
      by (simp add: s4_def)
    then obtain reg where reg: "s4 CONTROLLED_WIDGETS = Some reg"
      by blast
    have unf: "init k d tf fn s =
        (case contains reg k of
           Inl e \<Rightarrow> (Inl e, s4)
         | Inr True \<Rightarrow> (Inr self, s4)
         | Inr False \<Rightarrow>
             (case update_trigger_fields_session_state self s4 of
                (Inl e, s5) \<Rightarrow> (Inl e, s5)
              | (Inr _, s5) \<Rightarrow> (Inr self, s5)))"
      unfolding self_def s4_def s3_def s2_def s1_def
      by (rule init_unfold) (use dv reg in \<open>simp_all only: s4_def s3_def s2_def s1_def\<close>)
    have "snd (init k d tf fn s) = s4
             \<or> snd (init k d tf fn s) = snd (update_trigger_fields_session_state self s4)"
      unfolding unf
      by (cases "update_trigger_fields_session_state self s4")
         (simp split: sum.splits bool.splits)
    then show ?thesis
      using dv s3_def s4_def by blast
  qed
qed

lemma init_elsewhere:
  assumes "x \<noteq> DEFAULT_VALUES" and "x \<noteq> CONTROLLED_WIDGETS"
  shows "snd (init k d tf fn s) x = (if x = k \<and> s x = None then Some d else s x)"
proof -
  define self where "self = \<lparr>key = k, default_value = d, trigger_fields = tf, trigger_func = fn\<rparr>"
  define s1 where "s1 = (if s DEFAULT_VALUES = None then s(DEFAULT_VALUES \<mapsto> VDict fmempty) else s)"
  define s2 where "s2 = (if s1 k = None then s1(k \<mapsto> d) else s1)"
  have x2: "s2 x = (if x = k \<and> s x = None then Some d else s x)"
    using assms by (auto simp add: s1_def s2_def)
  from init_session_cases [of k d tf fn s]
  consider "snd (init k d tf fn s) = s2"
    | dv s3 s4 where "s3 = s2(DEFAULT_VALUES \<mapsto> VDict (fmupd k d dv))"
        and "s4 = (if s3 CONTROLLED_WIDGETS = None
                   then s3(CONTROLLED_WIDGETS \<mapsto> VDict fmempty) else s3)"
        and "snd (init k d tf fn s) = s4
             \<or> snd (init k d tf fn s) = snd (update_trigger_fields_session_state self s4)"
    unfolding self_def [symmetric] s1_def [symmetric] s2_def [symmetric] by blast
  then have "snd (init k d tf fn s) x = s2 x"
  proof cases
    case 1
    then show ?thesis by simp
  next
    case 2
    have "s3 x = s2 x"
      using assms 2(1) by simp
    then have "s4 x = s2 x"
      using assms 2(2) by simp
    moreover have "snd (update_trigger_fields_session_state self s4) x = s4 x"
      using assms(2) by (rule update_elsewhere)
    ultimately show ?thesis
      using 2(3) by auto
  qed
  then show ?thesis
    by (simp add: x2)
qed

lemma init_dom:
  assumes "x = k \<or> x \<in> dom s"
  shows "x \<in> dom (snd (init k d tf fn s))"
proof -
  define self where "self = \<lparr>key = k, default_value = d, trigger_fields = tf, trigger_func = fn\<rparr>"
  define s1 where "s1 = (if s DEFAULT_VALUES = None then s(DEFAULT_VALUES \<mapsto> VDict fmempty) else s)"
  define s2 where "s2 = (if s1 k = None then s1(k \<mapsto> d) else s1)"
  have x2: "x \<in> dom s2"
    using assms by (auto simp add: s1_def s2_def)
  from init_session_cases [of k d tf fn s]
  consider "snd (init k d tf fn s) = s2"
    | dv s3 s4 where "s3 = s2(DEFAULT_VALUES \<mapsto> VDict (fmupd k d dv))"
        and "s4 = (if s3 CONTROLLED_WIDGETS = None
                   then s3(CONTROLLED_WIDGETS \<mapsto> VDict fmempty) else s3)"
        and "snd (init k d tf fn s) = s4
             \<or> snd (init k d tf fn s) = snd (update_trigger_fields_session_state self s4)"
    unfolding self_def [symmetric] s1_def [symmetric] s2_def [symmetric] by blast
  then show ?thesis
  proof cases
    case 1
    then show ?thesis using x2 by simp
  next
    case 2
    have "x \<in> dom s3"
      using x2 2(1) by auto
    then have "x \<in> dom s4"
      using 2(2) by auto
    moreover from this have "x \<in> dom (snd (update_trigger_fields_session_state self s4))"
      by (rule update_dom)
    ultimately show ?thesis
      using 2(3) by auto
  qed
qed

text \<open>
  The result of \<open>init\<close> for a key that is not a registry name, on a session whose
  registries are dictionaries or not there yet.
\<close>

lemma init_well_formed:
  fixes k d tf fn s
  defines "self \<equiv> \<lparr>key = k, default_value = d, trigger_fields = tf, trigger_func = fn\<rparr>"
  defines "s2 \<equiv> (if s k = None then s(k \<mapsto> d) else s)"
  defines "s4 \<equiv> s2(DEFAULT_VALUES \<mapsto> VDict (fmupd k d (dict_at s DEFAULT_VALUES)),
                   CONTROLLED_WIDGETS \<mapsto> VDict (dict_at s CONTROLLED_WIDGETS))"
  assumes k: "k \<noteq> DEFAULT_VALUES" "k \<noteq> CONTROLLED_WIDGETS"
    and dv: "is_dict_or_absent s DEFAULT_VALUES"
    and cw: "is_dict_or_absent s CONTROLLED_WIDGETS"
  shows "init k d tf fn s =
    (Inr self,
     if fmlookup (dict_at s CONTROLLED_WIDGETS) k \<noteq> None then s4
     else s4(CONTROLLED_WIDGETS \<mapsto>
            VDict (fmupd k (tracked_entry s4 (fields_or_empty self))
                     (dict_at s CONTROLLED_WIDGETS))))"
proof -
  have reg4: "s4 CONTROLLED_WIDGETS = Some (VDict (dict_at s CONTROLLED_WIDGETS))"
    by (simp add: s4_def)
  have upd: "update_trigger_fields_session_state self s4 =
    (Inr (), s4(CONTROLLED_WIDGETS \<mapsto>
        VDict (fmupd (key self) (tracked_entry s4 (fields_or_empty self))
                 (dict_at s CONTROLLED_WIDGETS))))"
    using reg4 by (rule update_registry_dict)
  have keyself: "key self = k"
    by (simp add: self_def)
  define s1 where "s1 = (if s DEFAULT_VALUES = None then s(DEFAULT_VALUES \<mapsto> VDict fmempty) else s)"
  define t2 where "t2 = (if s1 k = None then s1(k \<mapsto> d) else s1)"
  have t2dv: "t2 DEFAULT_VALUES = Some (VDict (dict_at s DEFAULT_VALUES))"
    using is_dict_or_absent_cases [OF dv] k by (auto simp add: s1_def t2_def)
  define t3 where "t3 = t2(DEFAULT_VALUES \<mapsto> VDict (fmupd k d (dict_at s DEFAULT_VALUES)))"
  define t4 where "t4 = (if t3 CONTROLLED_WIDGETS = None
                             then t3(CONTROLLED_WIDGETS \<mapsto> VDict fmempty) else t3)"
  have t4: "t4 = s4"
    using is_dict_or_absent_cases [OF cw] is_dict_or_absent_cases [OF dv] k
    by (auto simp add: t4_def t3_def t2_def s1_def s4_def s2_def fun_upd_twist)
  have unf: "init k d tf fn s =
        (case contains (VDict (dict_at s CONTROLLED_WIDGETS)) k of
           Inl e \<Rightarrow> (Inl e, t4)
         | Inr True \<Rightarrow> (Inr self, t4)
         | Inr False \<Rightarrow>
             (case update_trigger_fields_session_state self t4 of
                (Inl e, s5) \<Rightarrow> (Inl e, s5)
              | (Inr _, s5) \<Rightarrow> (Inr self, s5)))"
    unfolding self_def t4_def t3_def t2_def s1_def
    by (rule init_unfold)
       (use t2dv reg4 t4 in \<open>simp_all only: t4_def t3_def t2_def s1_def\<close>)
  show ?thesis
    unfolding unf t4 by (simp add: contains_def upd keyself)
qed

section \<open>The example page, evaluated\<close>

lemmas model_defs = init_def update_trigger_fields_session_state_def tracked_entry_def
  tracked_values_def fields_or_empty_def session_getattr_def session_get_def getitem_def
  setitem_def contains_def items_def trigger_field_values_def has_triggered_def enter_def
  exit_def reset_def with_widget_def set_trigger_fields_def
  DEFAULT_VALUES_def CONTROLLED_WIDGETS_def TRACKED_def

lemmas demo_defs = demo_widget_def demo_session_def demo_seeded_def

lemma demo_init:
  "fst (init ''my_text_input'' (VStr ''initial value'') (Some [''field1'', ''field2'']) None
         demo_session) = Inr demo_widget"
  by (simp add: model_defs demo_defs Let_def)

lemma demo_seeded_at:
  "demo_seeded ''my_text_input'' = Some (VStr ''initial value'')"
  "demo_seeded ''field1'' = Some (VStr '''')"
  "demo_seeded ''field2'' = Some (VStr '''')"
  "demo_seeded ''another_widget'' = None"
  "demo_seeded ''field3'' = None"
  "demo_seeded CONTROLLED_WIDGETS =
     Some (VDict (fmupd ''my_text_input''
       (VDict (fmupd TRACKED
          (VDict (fmupd ''field2'' (VStr '''') (fmupd ''field1'' (VStr '''') fmempty)))
          fmempty))
       fmempty))"
  "demo_seeded DEFAULT_VALUES =
     Some (VDict (fmupd ''my_text_input'' (VStr ''initial value'') fmempty))"
  by (simp_all add: model_defs demo_defs Let_def)

section \<open>The trigger decision\<close>

text \<open>
  C7. A widget with neither a trigger function nor trigger fields reports a trigger on
  every call, and the call leaves the session as it was.
\<close>

theorem has_triggered_neither_set:
  "trigger_func w = None \<Longrightarrow> trigger_fields w = None \<Longrightarrow> has_triggered w s = (Inr True, s)"
  by (simp add: has_triggered_def)

text \<open>
  The widget of the example page that has neither: its check is true on the starting page.
\<close>

theorem has_triggered_neither_set_witness:
  "trigger_func field1_widget = None \<and> trigger_fields field1_widget = None
   \<and> has_triggered field1_widget demo_session = (Inr True, demo_session)"
  using has_triggered_neither_set [of field1_widget demo_session]
  by (simp add: field1_widget_def)

text \<open>
  C3. With a trigger function set, the check is the call of that function: its result
  (or its exception) and the session it leaves, whatever the trigger fields are and
  whatever the registry records or lacks for the widget.
\<close>

theorem has_triggered_defers_to_trigger_func:
  "trigger_func w = Some f \<Longrightarrow>
   has_triggered w s = f s \<and> has_triggered (w\<lparr>trigger_fields := tf\<rparr>) s = f s"
  by (simp add: has_triggered_def)

text \<open>
  The example page's widget with a trigger function: the check is true once \<^verbatim>\<open>field1\<close> holds
  \<^verbatim>\<open>reset\<close> and false on the starting page, with trigger fields added to the instance or not.
\<close>

theorem has_triggered_defers_to_trigger_func_witness:
  "trigger_func another_widget = Some field1_is_reset
   \<and> has_triggered another_widget (demo_session(''field1'' \<mapsto> VStr ''reset'')) =
       (Inr True, demo_session(''field1'' \<mapsto> VStr ''reset''))
   \<and> has_triggered (another_widget\<lparr>trigger_fields := Some [''field2'']\<rparr>) demo_session =
       (Inr False, demo_session)"
proof -
  have f: "trigger_func another_widget = Some field1_is_reset"
    by (simp add: another_widget_def)
  have "field1_is_reset (demo_session(''field1'' \<mapsto> VStr ''reset'')) =
          (Inr True, demo_session(''field1'' \<mapsto> VStr ''reset''))"
    and "field1_is_reset demo_session = (Inr False, demo_session)"
    by (simp_all add: field1_is_reset_def demo_session_def)
  then show ?thesis
    using f has_triggered_defers_to_trigger_func [OF f, of "demo_session(''field1'' \<mapsto> VStr ''reset'')"]
      has_triggered_defers_to_trigger_func [OF f, of demo_session "Some [''field2'']"]
    by simp
qed

text \<open>
  C1, as the code has it. Without a trigger function and with trigger fields set (an empty
  list included), the check is true exactly when some field recorded in the snapshot reads
  differently now, where reading is \<^verbatim>\<open>get\<close>: a field that is not in the session reads as
  \<^verbatim>\<open>None\<close>. The session is left as it was.
\<close>

theorem has_triggered_fields_iff:
  assumes "trigger_func w = None" and "trigger_fields w = Some fs"
    and "trigger_field_values w s = Inr (VDict snap)"
  shows "has_triggered w s =
           (Inr (\<exists>f v. fmlookup snap f = Some v \<and> session_get s f \<noteq> v), s)"
  using assms by (rule has_triggered_snapshot)

text \<open>
  On the example page: after \<^verbatim>\<open>field1\<close> is edited the check of the text input is true, and with
  both fields as recorded it is false.
\<close>

theorem has_triggered_fields_iff_witness:
  "trigger_func demo_widget = None
   \<and> trigger_fields demo_widget = Some [''field1'', ''field2'']
   \<and> trigger_field_values demo_widget (demo_seeded(''field1'' \<mapsto> VStr ''hello'')) =
       Inr (VDict (fmupd ''field2'' (VStr '''') (fmupd ''field1'' (VStr '''') fmempty)))
   \<and> has_triggered demo_widget (demo_seeded(''field1'' \<mapsto> VStr ''hello'')) =
       (Inr True, demo_seeded(''field1'' \<mapsto> VStr ''hello''))
   \<and> has_triggered demo_widget demo_seeded = (Inr False, demo_seeded)"
proof -
  let ?snap = "fmupd ''field2'' (VStr '''') (fmupd ''field1'' (VStr '''') fmempty)"
  have h1: "trigger_func demo_widget = None"
    and h2: "trigger_fields demo_widget = Some [''field1'', ''field2'']"
    by (simp_all add: demo_widget_def)
  have key: "key demo_widget = ''my_text_input''"
    by (simp add: demo_widget_def)
  have h3: "trigger_field_values demo_widget demo_seeded = Inr (VDict ?snap)"
    by (simp add: trigger_field_values_def session_getattr_def getitem_def demo_seeded_at key)
  have "(demo_seeded(''field1'' \<mapsto> VStr ''hello'')) CONTROLLED_WIDGETS = demo_seeded CONTROLLED_WIDGETS"
    by (simp add: CONTROLLED_WIDGETS_def)
  then have h3': "trigger_field_values demo_widget (demo_seeded(''field1'' \<mapsto> VStr ''hello'')) =
      Inr (VDict ?snap)"
    using h3
      trigger_field_values_cong [of "demo_seeded(''field1'' \<mapsto> VStr ''hello'')" demo_seeded demo_widget]
    by simp
  have "\<exists>f v. fmlookup ?snap f = Some v
      \<and> session_get (demo_seeded(''field1'' \<mapsto> VStr ''hello'')) f \<noteq> v"
    by (intro exI [of _ "''field1''"] exI [of _ "VStr ''''"]) (simp add: session_get_def)
  then have changed: "(\<exists>f v. fmlookup ?snap f = Some v
      \<and> session_get (demo_seeded(''field1'' \<mapsto> VStr ''hello'')) f \<noteq> v) = True"
    by (rule eqTrueI)
  have "\<not> (\<exists>f v. fmlookup ?snap f = Some v \<and> session_get demo_seeded f \<noteq> v)"
    by (auto simp add: session_get_def demo_seeded_at split: if_splits)
  then have same: "(\<exists>f v. fmlookup ?snap f = Some v \<and> session_get demo_seeded f \<noteq> v) = False"
    by (rule eq_False [THEN iffD2])
  have t1: "has_triggered demo_widget (demo_seeded(''field1'' \<mapsto> VStr ''hello'')) =
       (Inr True, demo_seeded(''field1'' \<mapsto> VStr ''hello''))"
    using has_triggered_fields_iff [OF h1 h2 h3'] unfolding changed .
  have t2: "has_triggered demo_widget demo_seeded = (Inr False, demo_seeded)"
    using has_triggered_fields_iff [OF h1 h2 h3] unfolding same .
  show ?thesis
    using h1 h2 h3' t1 t2 by (intro conjI)
qed

text \<open>
  A field that held \<^verbatim>\<open>None\<close> when the snapshot was recorded and has since been removed from
  the session is in the snapshot and not in the session, and the check is false; so is it
  for a field that was not in the session when the snapshot was recorded and holds \<^verbatim>\<open>None\<close>
  now.
\<close>

theorem absent_field_reads_as_None_counterexample:
  "trigger_field_values field1_only_widget
       ((seeded_on_field1 field1_None_session)(''field1'' := None)) =
     Inr (VDict (fmupd ''field1'' VNone fmempty))
   \<and> ((seeded_on_field1 field1_None_session)(''field1'' := None)) ''field1'' = None
   \<and> has_triggered field1_only_widget
       ((seeded_on_field1 field1_None_session)(''field1'' := None)) =
     (Inr False, (seeded_on_field1 field1_None_session)(''field1'' := None))
   \<and> (seeded_on_field1 empty_session) ''field1'' = None
   \<and> has_triggered field1_only_widget
       ((seeded_on_field1 empty_session)(''field1'' \<mapsto> VNone)) =
     (Inr False, (seeded_on_field1 empty_session)(''field1'' \<mapsto> VNone))"
  by (simp add: model_defs field1_only_widget_def seeded_on_field1_def empty_session_def
      field1_None_session_def Let_def fmpred_fmupd_iff)



section \<open>Reading the snapshot\<close>

text \<open>
  C9. When the registry is there and has no entry for the widget's key, reading
  \<^verbatim>\<open>trigger_field_values\<close> raises \<^verbatim>\<open>KeyError\<close>, and the callers that read it (the trigger check
  on trigger fields, and the entry of the \<^verbatim>\<open>with\<close> statement through it) raise the same
  error without writing anything. When the entry is there, the read returns the snapshot
  recorded in it.
\<close>

theorem trigger_field_values_missing_key:
  "(s CONTROLLED_WIDGETS = Some (VDict reg) \<and> fmlookup reg (key w) = None \<longrightarrow>
      trigger_field_values w s = Inl KeyError
      \<and> (trigger_func w = None \<and> trigger_fields w \<noteq> None \<longrightarrow>
           has_triggered w s = (Inl KeyError, s) \<and> enter w s = (Inl KeyError, s)))
   \<and> (t CONTROLLED_WIDGETS = Some (VDict reg') \<and> fmlookup reg' (key w) = Some (VDict e)
        \<and> fmlookup e TRACKED = Some snap \<longrightarrow>
      trigger_field_values w t = Inr snap)"
  by (auto simp add: trigger_field_values_def session_getattr_def getitem_def has_triggered_def
      enter_def)

text \<open>
  The text input on a session whose registry is empty, and on the session its construction
  left.
\<close>

theorem trigger_field_values_missing_key_witness:
  "(demo_session(CONTROLLED_WIDGETS \<mapsto> VDict fmempty)) CONTROLLED_WIDGETS = Some (VDict fmempty)
   \<and> fmlookup fmempty (key demo_widget) = None
   \<and> trigger_func demo_widget = None \<and> trigger_fields demo_widget \<noteq> None
   \<and> trigger_field_values demo_widget (demo_session(CONTROLLED_WIDGETS \<mapsto> VDict fmempty)) =
       Inl KeyError
   \<and> has_triggered demo_widget (demo_session(CONTROLLED_WIDGETS \<mapsto> VDict fmempty)) =
       (Inl KeyError, demo_session(CONTROLLED_WIDGETS \<mapsto> VDict fmempty))
   \<and> enter demo_widget (demo_session(CONTROLLED_WIDGETS \<mapsto> VDict fmempty)) =
       (Inl KeyError, demo_session(CONTROLLED_WIDGETS \<mapsto> VDict fmempty))
   \<and> trigger_field_values demo_widget demo_seeded =
       Inr (VDict (fmupd ''field2'' (VStr '''') (fmupd ''field1'' (VStr '''') fmempty)))"
proof -
  let ?snap = "VDict (fmupd ''field2'' (VStr '''') (fmupd ''field1'' (VStr '''') fmempty))"
  let ?e = "fmupd TRACKED ?snap fmempty"
  let ?reg = "fmupd ''my_text_input'' (VDict ?e) fmempty"
  let ?s = "demo_session(CONTROLLED_WIDGETS \<mapsto> VDict fmempty)"
  have a: "?s CONTROLLED_WIDGETS = Some (VDict fmempty) \<and> fmlookup fmempty (key demo_widget) = None"
    by simp
  have b: "trigger_func demo_widget = None \<and> trigger_fields demo_widget \<noteq> None"
    by (simp add: demo_widget_def)
  have c: "demo_seeded CONTROLLED_WIDGETS = Some (VDict ?reg)
      \<and> fmlookup ?reg (key demo_widget) = Some (VDict ?e) \<and> fmlookup ?e TRACKED = Some ?snap"
    by (simp add: demo_seeded_at demo_widget_def)
  note inst = trigger_field_values_missing_key [of ?s fmempty demo_widget demo_seeded ?reg ?e ?snap]
  note r1 = inst [THEN conjunct1, THEN mp, OF a]
  note r2 = r1 [THEN conjunct2, THEN mp, OF b]
  note r3 = inst [THEN conjunct2, THEN mp, OF c]
  show ?thesis
    using a [THEN conjunct1] a [THEN conjunct2] b [THEN conjunct1] b [THEN conjunct2]
      r1 [THEN conjunct1] r2 [THEN conjunct1] r2 [THEN conjunct2] r3
    by (intro conjI)
qed

section \<open>Reset and the with statement\<close>

text \<open>
  C6. \<^verbatim>\<open>reset\<close> writes the default under the widget's key whatever the session holds, and
  then records the snapshot: with the registry a dictionary after that write, the new
  entry maps every trigger field to what it reads in the session as just written, the
  read of \<^verbatim>\<open>trigger_field_values\<close> returns it, and nothing else changes.
\<close>

theorem reset_overwrites_then_recaptures:
  "(key w \<noteq> CONTROLLED_WIDGETS \<longrightarrow> snd (reset w s) (key w) = Some (default_value w))
   \<and> ((s(key w \<mapsto> default_value w)) CONTROLLED_WIDGETS = Some (VDict reg) \<longrightarrow>
        reset w s =
          (Inr (), (s(key w \<mapsto> default_value w))(CONTROLLED_WIDGETS \<mapsto>
             VDict (fmupd (key w)
               (tracked_entry (s(key w \<mapsto> default_value w)) (fields_or_empty w)) reg)))
        \<and> trigger_field_values w (snd (reset w s)) =
            Inr (VDict (tracked_values (s(key w \<mapsto> default_value w)) (fields_or_empty w)))
        \<and> (\<forall>f \<in> set (fields_or_empty w).
              fmlookup (tracked_values (s(key w \<mapsto> default_value w)) (fields_or_empty w)) f =
                Some (session_get (s(key w \<mapsto> default_value w)) f)))"
proof (intro conjI impI)
  assume "key w \<noteq> CONTROLLED_WIDGETS"
  then show "snd (reset w s) (key w) = Some (default_value w)"
    by (simp add: reset_def update_elsewhere)
next
  assume reg: "(s(key w \<mapsto> default_value w)) CONTROLLED_WIDGETS = Some (VDict reg)"
  show "reset w s =
          (Inr (), (s(key w \<mapsto> default_value w))(CONTROLLED_WIDGETS \<mapsto>
             VDict (fmupd (key w)
               (tracked_entry (s(key w \<mapsto> default_value w)) (fields_or_empty w)) reg)))"
    unfolding reset_def using reg by (rule update_registry_dict)
  show "trigger_field_values w (snd (reset w s)) =
            Inr (VDict (tracked_values (s(key w \<mapsto> default_value w)) (fields_or_empty w)))"
    unfolding reset_def using reg by (rule trigger_field_values_after_update)
  show "\<forall>f \<in> set (fields_or_empty w).
              fmlookup (tracked_values (s(key w \<mapsto> default_value w)) (fields_or_empty w)) f =
                Some (session_get (s(key w \<mapsto> default_value w)) f)"
    by (simp add: tracked_values_lookup)
qed

text \<open>
  On the example page, after the user typed into the text input and edited \<^verbatim>\<open>field1\<close>: the
  value is the default again and the snapshot records the edit.
\<close>

theorem reset_overwrites_then_recaptures_witness:
  "key demo_widget \<noteq> CONTROLLED_WIDGETS
   \<and> ((demo_seeded(''my_text_input'' \<mapsto> VStr ''typed'', ''field1'' \<mapsto> VStr ''hello''))
        (key demo_widget \<mapsto> default_value demo_widget)) CONTROLLED_WIDGETS =
       demo_seeded CONTROLLED_WIDGETS
   \<and> set (fields_or_empty demo_widget) = {''field1'', ''field2''}
   \<and> fst (reset demo_widget
        (demo_seeded(''my_text_input'' \<mapsto> VStr ''typed'', ''field1'' \<mapsto> VStr ''hello''))) = Inr ()
   \<and> snd (reset demo_widget
        (demo_seeded(''my_text_input'' \<mapsto> VStr ''typed'', ''field1'' \<mapsto> VStr ''hello'')))
       (key demo_widget) = Some (VStr ''initial value'')
   \<and> trigger_field_values demo_widget (snd (reset demo_widget
        (demo_seeded(''my_text_input'' \<mapsto> VStr ''typed'', ''field1'' \<mapsto> VStr ''hello'')))) =
       Inr (VDict (fmupd ''field2'' (VStr '''') (fmupd ''field1'' (VStr ''hello'') fmempty)))"
proof -
  let ?s = "demo_seeded(''my_text_input'' \<mapsto> VStr ''typed'', ''field1'' \<mapsto> VStr ''hello'')"
  let ?reg = "fmupd ''my_text_input''
       (VDict (fmupd TRACKED
          (VDict (fmupd ''field2'' (VStr '''') (fmupd ''field1'' (VStr '''') fmempty)))
          fmempty))
       fmempty"
  have a: "key demo_widget \<noteq> CONTROLLED_WIDGETS"
    by (simp add: demo_widget_def CONTROLLED_WIDGETS_def)
  have b: "(?s(key demo_widget \<mapsto> default_value demo_widget)) CONTROLLED_WIDGETS =
      demo_seeded CONTROLLED_WIDGETS"
    by (simp add: demo_widget_def CONTROLLED_WIDGETS_def)
  then have b': "(?s(key demo_widget \<mapsto> default_value demo_widget)) CONTROLLED_WIDGETS =
      Some (VDict ?reg)"
    by (simp only: demo_seeded_at)
  have c: "set (fields_or_empty demo_widget) = {''field1'', ''field2''}"
    by (simp add: fields_or_empty_def demo_widget_def)
  have ev: "tracked_values (?s(key demo_widget \<mapsto> default_value demo_widget))
        (fields_or_empty demo_widget) =
      fmupd ''field2'' (VStr '''') (fmupd ''field1'' (VStr ''hello'') fmempty)"
    by (simp add: tracked_values_def fields_or_empty_def session_get_def demo_widget_def
        demo_seeded_at)
  have d: "default_value demo_widget = VStr ''initial value''"
    by (simp add: demo_widget_def)
  note inst = reset_overwrites_then_recaptures [of demo_widget ?s ?reg]
  note v0 = inst [THEN conjunct1, THEN mp, OF a]
  note r0 = inst [THEN conjunct2, THEN mp, OF b']
  have v: "snd (reset demo_widget ?s) (key demo_widget) = Some (VStr ''initial value'')"
    using v0 by (simp only: d)
  have r: "fst (reset demo_widget ?s) = Inr ()"
    using r0 [THEN conjunct1] by simp
  have t: "trigger_field_values demo_widget (snd (reset demo_widget ?s)) =
      Inr (VDict (fmupd ''field2'' (VStr '''') (fmupd ''field1'' (VStr ''hello'') fmempty)))"
    using r0 [THEN conjunct2, THEN conjunct1] by (simp only: ev)
  show ?thesis
    using a b c r v t by (intro conjI)
qed

text \<open>
  C2. Entry: when the trigger check returns true, the entry writes the default under the
  widget's key in the session the check left and does nothing else, so the registry and
  the recorded snapshot are as they were. Exit: whatever exception the block ended with,
  or none, it records the snapshot from the session the block left; the \<^verbatim>\<open>with\<close> statement
  runs it after a block that returned and after one that raised alike, and hands on the
  block's outcome.
\<close>

theorem scoped_entry_and_exit:
  "(has_triggered w s = (Inr True, s1) \<longrightarrow>
      enter w s = (Inr w, s1(key w \<mapsto> default_value w))
      \<and> (key w \<noteq> CONTROLLED_WIDGETS \<longrightarrow>
           snd (enter w s) CONTROLLED_WIDGETS = s1 CONTROLLED_WIDGETS
           \<and> trigger_field_values w (snd (enter w s)) = trigger_field_values w s1))
   \<and> (s2 CONTROLLED_WIDGETS = Some (VDict reg) \<longrightarrow>
        exit w exc s2 =
          (Inr (), s2(CONTROLLED_WIDGETS \<mapsto>
             VDict (fmupd (key w) (tracked_entry s2 (fields_or_empty w)) reg)))
        \<and> trigger_field_values w (snd (exit w exc s2)) =
            Inr (VDict (tracked_values s2 (fields_or_empty w)))
        \<and> (\<forall>f \<in> set (fields_or_empty w).
              fmlookup (tracked_values s2 (fields_or_empty w)) f = Some (session_get s2 f))
        \<and> (enter w s = (Inr ctrl, se) \<and> body ctrl se = (r, s2) \<longrightarrow>
             with_widget w body s = (r, snd (exit w exc s2))))"
proof (intro conjI impI)
  assume t: "has_triggered w s = (Inr True, s1)"
  then show e: "enter w s = (Inr w, s1(key w \<mapsto> default_value w))"
    by (simp add: enter_def)
  assume "key w \<noteq> CONTROLLED_WIDGETS"
  then show c: "snd (enter w s) CONTROLLED_WIDGETS = s1 CONTROLLED_WIDGETS"
    by (simp add: e)
  then show "trigger_field_values w (snd (enter w s)) = trigger_field_values w s1"
    by (rule trigger_field_values_cong)
next
  assume reg: "s2 CONTROLLED_WIDGETS = Some (VDict reg)"
  show x: "exit w exc s2 =
          (Inr (), s2(CONTROLLED_WIDGETS \<mapsto>
             VDict (fmupd (key w) (tracked_entry s2 (fields_or_empty w)) reg)))"
    unfolding exit_def using reg by (rule update_registry_dict)
  show "trigger_field_values w (snd (exit w exc s2)) =
            Inr (VDict (tracked_values s2 (fields_or_empty w)))"
    unfolding exit_def using reg by (rule trigger_field_values_after_update)
  show "\<forall>f \<in> set (fields_or_empty w).
              fmlookup (tracked_values s2 (fields_or_empty w)) f = Some (session_get s2 f)"
    by (simp add: tracked_values_lookup)
  assume "enter w s = (Inr ctrl, se) \<and> body ctrl se = (r, s2)"
  then show "with_widget w body s = (r, snd (exit w exc s2))"
    using x by (simp add: with_widget_def exit_def)
qed

text \<open>
  On the example page, after \<^verbatim>\<open>field1\<close> is edited and with a block that raises: the entry
  writes the default and leaves the snapshot, the exception reaches the caller, and the
  snapshot recorded by the exit has the edit.
\<close>

theorem scoped_entry_and_exit_witness:
  "has_triggered demo_widget (demo_seeded(''field1'' \<mapsto> VStr ''hello'')) =
     (Inr True, demo_seeded(''field1'' \<mapsto> VStr ''hello''))
   \<and> key demo_widget \<noteq> CONTROLLED_WIDGETS
   \<and> enter demo_widget (demo_seeded(''field1'' \<mapsto> VStr ''hello'')) =
       (Inr demo_widget,
        demo_seeded(''field1'' \<mapsto> VStr ''hello'', key demo_widget \<mapsto> default_value demo_widget))
   \<and> trigger_field_values demo_widget
        (snd (enter demo_widget (demo_seeded(''field1'' \<mapsto> VStr ''hello'')))) =
       trigger_field_values demo_widget (demo_seeded(''field1'' \<mapsto> VStr ''hello''))
   \<and> failing_block demo_widget
        (demo_seeded(''field1'' \<mapsto> VStr ''hello'', key demo_widget \<mapsto> default_value demo_widget)) =
       (Inl (Raised ''render failed''),
        demo_seeded(''field1'' \<mapsto> VStr ''hello'', key demo_widget \<mapsto> default_value demo_widget,
          key demo_widget \<mapsto> VStr ''typed''))
   \<and> with_widget demo_widget failing_block (demo_seeded(''field1'' \<mapsto> VStr ''hello'')) =
       (Inl (Raised ''render failed''),
        snd (exit demo_widget (Some (Raised ''render failed''))
          (demo_seeded(''field1'' \<mapsto> VStr ''hello'', key demo_widget \<mapsto> default_value demo_widget,
             key demo_widget \<mapsto> VStr ''typed''))))
   \<and> trigger_field_values demo_widget
        (snd (exit demo_widget (Some (Raised ''render failed''))
          (demo_seeded(''field1'' \<mapsto> VStr ''hello'', key demo_widget \<mapsto> default_value demo_widget,
             key demo_widget \<mapsto> VStr ''typed'')))) =
       Inr (VDict (fmupd ''field2'' (VStr '''') (fmupd ''field1'' (VStr ''hello'') fmempty)))"
proof -
  let ?s = "demo_seeded(''field1'' \<mapsto> VStr ''hello'')"
  let ?se = "?s(key demo_widget \<mapsto> default_value demo_widget)"
  let ?s2 = "?se(key demo_widget \<mapsto> VStr ''typed'')"
  let ?exc = "Some (Raised ''render failed'')"
  let ?r = "Inl (Raised ''render failed'') :: exn + unit"
  let ?reg = "fmupd ''my_text_input''
       (VDict (fmupd TRACKED
          (VDict (fmupd ''field2'' (VStr '''') (fmupd ''field1'' (VStr '''') fmempty)))
          fmempty))
       fmempty"
  have trig: "has_triggered demo_widget ?s = (Inr True, ?s)"
    by (simp add: model_defs demo_defs Let_def fmpred_fmupd_iff)
  have k: "key demo_widget \<noteq> CONTROLLED_WIDGETS"
    by (simp add: demo_widget_def CONTROLLED_WIDGETS_def)
  have "?s2 CONTROLLED_WIDGETS = demo_seeded CONTROLLED_WIDGETS"
    by (simp add: demo_widget_def CONTROLLED_WIDGETS_def)
  then have reg: "?s2 CONTROLLED_WIDGETS = Some (VDict ?reg)"
    by (simp only: demo_seeded_at)
  have blk: "failing_block demo_widget ?se = (?r, ?s2)"
    by (simp only: failing_block_def)
  have ev: "tracked_values ?s2 (fields_or_empty demo_widget) =
      fmupd ''field2'' (VStr '''') (fmupd ''field1'' (VStr ''hello'') fmempty)"
    by (simp add: tracked_values_def fields_or_empty_def session_get_def demo_widget_def
        demo_seeded_at)
  note inst = scoped_entry_and_exit [where w = demo_widget and s = ?s and ?s1.0 = ?s
      and ?s2.0 = ?s2 and reg = ?reg and exc = ?exc and ctrl = demo_widget and se = ?se
      and body = failing_block and r = ?r]
  note e0 = inst [THEN conjunct1, THEN mp, OF trig]
  note ent = e0 [THEN conjunct1]
  note kept = e0 [THEN conjunct2, THEN mp, OF k, THEN conjunct2]
  note x0 = inst [THEN conjunct2, THEN mp, OF reg]
  have snap: "trigger_field_values demo_widget (snd (exit demo_widget ?exc ?s2)) =
      Inr (VDict (fmupd ''field2'' (VStr '''') (fmupd ''field1'' (VStr ''hello'') fmempty)))"
    using x0 [THEN conjunct2, THEN conjunct1] by (simp only: ev)
  note w0 = x0 [THEN conjunct2, THEN conjunct2, THEN conjunct2, THEN mp, OF conjI, OF ent blk]
  show ?thesis
    using trig k ent kept blk w0 snap by (intro conjI)
qed

section \<open>Construction and the controlled value\<close>

text \<open>
  C4, as the code has it. For a key that is not a registry name, on a session whose
  registries are dictionaries or not there yet, construction returns the instance; it
  writes the default under a key that is not in the session; when the registry has no
  entry for the key it records a snapshot that maps every trigger field (the registry's
  own name apart) to what the field reads in the session construction leaves, absent
  fields as \<^verbatim>\<open>None\<close>; and when the registry has an entry, be the key
  in the session or not, it leaves the registry and the recorded snapshot as they were.
\<close>

theorem init_seeds_only_without_entry:
  assumes k: "k \<noteq> DEFAULT_VALUES" "k \<noteq> CONTROLLED_WIDGETS"
    and self: "self = \<lparr>key = k, default_value = d, trigger_fields = tf, trigger_func = fn\<rparr>"
    and s: "is_dict_or_absent s DEFAULT_VALUES" "is_dict_or_absent s CONTROLLED_WIDGETS"
      "fmlookup (dict_at s CONTROLLED_WIDGETS) k = None"
    and t: "is_dict_or_absent t DEFAULT_VALUES" "is_dict_or_absent t CONTROLLED_WIDGETS"
      "fmlookup (dict_at t CONTROLLED_WIDGETS) k \<noteq> None"
  shows "fst (init k d tf fn s) = Inr self
     \<and> (s k = None \<longrightarrow> snd (init k d tf fn s) k = Some d)
     \<and> (\<exists>snap. trigger_field_values self (snd (init k d tf fn s)) = Inr (VDict snap)
           \<and> fmdom' snap = set (fields_or_empty self)
           \<and> (\<forall>f \<in> set (fields_or_empty self). f \<noteq> CONTROLLED_WIDGETS \<longrightarrow>
                 fmlookup snap f = Some (session_get (snd (init k d tf fn s)) f)))
     \<and> fst (init k d tf fn t) = Inr self
     \<and> (t k = None \<longrightarrow> snd (init k d tf fn t) k = Some d)
     \<and> snd (init k d tf fn t) CONTROLLED_WIDGETS = t CONTROLLED_WIDGETS
     \<and> trigger_field_values self (snd (init k d tf fn t)) = trigger_field_values self t"
proof (intro conjI impI)
  define s2 where "s2 = (if s k = None then s(k \<mapsto> d) else s)"
  define s4 where "s4 = s2(DEFAULT_VALUES \<mapsto> VDict (fmupd k d (dict_at s DEFAULT_VALUES)),
                   CONTROLLED_WIDGETS \<mapsto> VDict (dict_at s CONTROLLED_WIDGETS))"
  define s' where "s' = snd (init k d tf fn s)"
  note wf = init_well_formed [OF k s(1,2), of d tf fn, folded self s2_def, folded s4_def]
  show "fst (init k d tf fn s) = Inr self"
    by (simp add: wf)
  show "snd (init k d tf fn s) k = Some d" if "s k = None"
    using that k by (simp add: init_elsewhere)
  have reg4: "s4 CONTROLLED_WIDGETS = Some (VDict (dict_at s CONTROLLED_WIDGETS))"
    by (simp add: s4_def)
  have keyself: "key self = k"
    by (simp add: self)
  have s'_eq: "s' = snd (update_trigger_fields_session_state self s4)"
    using s(3) reg4 by (simp add: s'_def wf update_registry_dict keyself)
  have "\<exists>snap. trigger_field_values self s' = Inr (VDict snap)
             \<and> fmdom' snap = set (fields_or_empty self)
             \<and> (\<forall>f \<in> set (fields_or_empty self). f \<noteq> CONTROLLED_WIDGETS \<longrightarrow>
                   fmlookup snap f = Some (session_get s' f))"
  proof (intro exI conjI ballI impI)
    show "trigger_field_values self s' = Inr (VDict (tracked_values s4 (fields_or_empty self)))"
      unfolding s'_eq using reg4 by (rule trigger_field_values_after_update)
    show "fmdom' (tracked_values s4 (fields_or_empty self)) = set (fields_or_empty self)"
      by (rule tracked_values_dom)
    fix f
    assume f: "f \<in> set (fields_or_empty self)" "f \<noteq> CONTROLLED_WIDGETS"
    have "s' f = s4 f"
      unfolding s'_eq using f(2) by (rule update_elsewhere)
    then have "session_get s' f = session_get s4 f"
      by (rule session_get_cong)
    then show "fmlookup (tracked_values s4 (fields_or_empty self)) f = Some (session_get s' f)"
      using f(1) by (simp add: tracked_values_lookup)
  qed
  then show "\<exists>snap. trigger_field_values self (snd (init k d tf fn s)) = Inr (VDict snap)
           \<and> fmdom' snap = set (fields_or_empty self)
           \<and> (\<forall>f \<in> set (fields_or_empty self). f \<noteq> CONTROLLED_WIDGETS \<longrightarrow>
                 fmlookup snap f = Some (session_get (snd (init k d tf fn s)) f))"
    by (simp only: s'_def)
  define t2 where "t2 = (if t k = None then t(k \<mapsto> d) else t)"
  define t4 where "t4 = t2(DEFAULT_VALUES \<mapsto> VDict (fmupd k d (dict_at t DEFAULT_VALUES)),
                   CONTROLLED_WIDGETS \<mapsto> VDict (dict_at t CONTROLLED_WIDGETS))"
  note wft = init_well_formed [OF k t(1,2), of d tf fn, folded self t2_def, folded t4_def]
  show "fst (init k d tf fn t) = Inr self"
    by (simp add: wft)
  show "snd (init k d tf fn t) k = Some d" if "t k = None"
    using that k by (simp add: init_elsewhere)
  have "t CONTROLLED_WIDGETS = Some (VDict (dict_at t CONTROLLED_WIDGETS))"
    using is_dict_or_absent_cases [OF t(2)] t(3) by auto
  then show "snd (init k d tf fn t) CONTROLLED_WIDGETS = t CONTROLLED_WIDGETS"
    using t(3) by (simp add: wft t4_def)
  then show "trigger_field_values self (snd (init k d tf fn t)) = trigger_field_values self t"
    by (rule trigger_field_values_cong)
qed

text \<open>
  The first construction of the text input on the starting page, and a later one after
  \<^verbatim>\<open>field1\<close> was edited.
\<close>

theorem init_seeds_only_without_entry_witness:
  "''my_text_input'' \<noteq> DEFAULT_VALUES \<and> ''my_text_input'' \<noteq> CONTROLLED_WIDGETS
   \<and> demo_widget =
       \<lparr>key = ''my_text_input'', default_value = VStr ''initial value'',
        trigger_fields = Some [''field1'', ''field2''], trigger_func = None\<rparr>
   \<and> is_dict_or_absent demo_session DEFAULT_VALUES
   \<and> is_dict_or_absent demo_session CONTROLLED_WIDGETS
   \<and> fmlookup (dict_at demo_session CONTROLLED_WIDGETS) ''my_text_input'' = None
   \<and> is_dict_or_absent (demo_seeded(''field1'' \<mapsto> VStr ''hello'')) DEFAULT_VALUES
   \<and> is_dict_or_absent (demo_seeded(''field1'' \<mapsto> VStr ''hello'')) CONTROLLED_WIDGETS
   \<and> fmlookup (dict_at (demo_seeded(''field1'' \<mapsto> VStr ''hello'')) CONTROLLED_WIDGETS)
        ''my_text_input'' \<noteq> None
   \<and> demo_session ''my_text_input'' = None
   \<and> set (fields_or_empty demo_widget) = {''field1'', ''field2''}
   \<and> fst (init ''my_text_input'' (VStr ''initial value'') (Some [''field1'', ''field2'']) None
          demo_session) = Inr demo_widget
   \<and> snd (init ''my_text_input'' (VStr ''initial value'') (Some [''field1'', ''field2'']) None
          demo_session) ''my_text_input'' = Some (VStr ''initial value'')
   \<and> trigger_field_values demo_widget
        (snd (init ''my_text_input'' (VStr ''initial value'') (Some [''field1'', ''field2'']) None
               demo_session)) =
       Inr (VDict (fmupd ''field2'' (VStr '''') (fmupd ''field1'' (VStr '''') fmempty)))
   \<and> snd (init ''my_text_input'' (VStr ''initial value'') (Some [''field1'', ''field2'']) None
          (demo_seeded(''field1'' \<mapsto> VStr ''hello''))) CONTROLLED_WIDGETS =
       (demo_seeded(''field1'' \<mapsto> VStr ''hello'')) CONTROLLED_WIDGETS
   \<and> trigger_field_values demo_widget
        (snd (init ''my_text_input'' (VStr ''initial value'') (Some [''field1'', ''field2'']) None
               (demo_seeded(''field1'' \<mapsto> VStr ''hello'')))) =
       trigger_field_values demo_widget (demo_seeded(''field1'' \<mapsto> VStr ''hello''))"
proof -
  let ?t = "demo_seeded(''field1'' \<mapsto> VStr ''hello'')"
  have k1: "''my_text_input'' \<noteq> DEFAULT_VALUES" and k2: "''my_text_input'' \<noteq> CONTROLLED_WIDGETS"
    by (simp_all add: DEFAULT_VALUES_def CONTROLLED_WIDGETS_def)
  have self: "demo_widget =
       \<lparr>key = ''my_text_input'', default_value = VStr ''initial value'',
        trigger_fields = Some [''field1'', ''field2''], trigger_func = None\<rparr>"
    by (simp add: demo_widget_def)
  have s1: "is_dict_or_absent demo_session DEFAULT_VALUES"
    and s2: "is_dict_or_absent demo_session CONTROLLED_WIDGETS"
    and s3: "fmlookup (dict_at demo_session CONTROLLED_WIDGETS) ''my_text_input'' = None"
    and s4: "demo_session ''my_text_input'' = None"
    by (simp_all add: is_dict_or_absent_def dict_at_def demo_session_def DEFAULT_VALUES_def
        CONTROLLED_WIDGETS_def)
  have tdv: "?t DEFAULT_VALUES = demo_seeded DEFAULT_VALUES"
    and tcw: "?t CONTROLLED_WIDGETS = demo_seeded CONTROLLED_WIDGETS"
    by (simp_all add: DEFAULT_VALUES_def CONTROLLED_WIDGETS_def)
  have t1: "is_dict_or_absent ?t DEFAULT_VALUES"
    and t2: "is_dict_or_absent ?t CONTROLLED_WIDGETS"
    and t3: "fmlookup (dict_at ?t CONTROLLED_WIDGETS) ''my_text_input'' \<noteq> None"
    by (simp_all only: is_dict_or_absent_def dict_at_def tdv tcw demo_seeded_at) simp_all
  have fs: "set (fields_or_empty demo_widget) = {''field1'', ''field2''}"
    by (simp add: fields_or_empty_def demo_widget_def)
  note inst = init_seeds_only_without_entry [OF k1 k2 self s1 s2 s3 t1 t2 t3]
  note c1 = inst [THEN conjunct1]
  note c2 = inst [THEN conjunct2, THEN conjunct1, THEN mp, OF s4]
  have c3: "trigger_field_values demo_widget
        (snd (init ''my_text_input'' (VStr ''initial value'') (Some [''field1'', ''field2'']) None
               demo_session)) =
       Inr (VDict (fmupd ''field2'' (VStr '''') (fmupd ''field1'' (VStr '''') fmempty)))"
    unfolding demo_seeded_def [symmetric]
    by (simp add: trigger_field_values_def session_getattr_def getitem_def demo_seeded_at
        demo_widget_def)
  note c6 = inst [THEN conjunct2, THEN conjunct2, THEN conjunct2, THEN conjunct2, THEN conjunct2,
      THEN conjunct1]
  note c7 = inst [THEN conjunct2, THEN conjunct2, THEN conjunct2, THEN conjunct2, THEN conjunct2,
      THEN conjunct2]
  show ?thesis
    using k1 k2 self s1 s2 s3 t1 t2 t3 s4 fs c1 c2 c3 c6 c7 by (intro conjI)
qed

text \<open>
  The key of the text input has been removed from the session and \<^verbatim>\<open>field1\<close> edited since the
  first construction: the next construction writes the default under the key, and the
  snapshot still records \<^verbatim>\<open>field1\<close> as empty while the session reads \<^verbatim>\<open>hello\<close>.
\<close>

theorem construction_keeps_stale_snapshot_counterexample:
  "(demo_seeded(''my_text_input'' := None, ''field1'' \<mapsto> VStr ''hello'')) ''my_text_input'' = None
   \<and> fst (init ''my_text_input'' (VStr ''initial value'') (Some [''field1'', ''field2'']) None
        (demo_seeded(''my_text_input'' := None, ''field1'' \<mapsto> VStr ''hello''))) =
      Inr demo_widget
   \<and> snd (init ''my_text_input'' (VStr ''initial value'') (Some [''field1'', ''field2'']) None
        (demo_seeded(''my_text_input'' := None, ''field1'' \<mapsto> VStr ''hello'')))
       ''my_text_input'' = Some (VStr ''initial value'')
   \<and> session_get
        (snd (init ''my_text_input'' (VStr ''initial value'') (Some [''field1'', ''field2'']) None
          (demo_seeded(''my_text_input'' := None, ''field1'' \<mapsto> VStr ''hello''))))
        ''field1'' = VStr ''hello''
   \<and> trigger_field_values demo_widget
        (snd (init ''my_text_input'' (VStr ''initial value'') (Some [''field1'', ''field2'']) None
          (demo_seeded(''my_text_input'' := None, ''field1'' \<mapsto> VStr ''hello'')))) =
      Inr (VDict (fmupd ''field2'' (VStr '''') (fmupd ''field1'' (VStr '''') fmempty)))"
  by (simp add: model_defs demo_defs Let_def)

text \<open>
  C5, as the code has it. For a key that is not a registry name, two operations write
  under the widget's key, both the default: \<^verbatim>\<open>reset\<close>, and the entry of the \<^verbatim>\<open>with\<close> statement
  when the trigger check returns true. Construction with the key in the session,
  \<^verbatim>\<open>set_trigger_fields\<close>, the exit, and an entry whose check is false or raises leave the value
  under the key as it was (the entry: as the check left it); the trigger check without a
  trigger function leaves the whole session as it was. \<^verbatim>\<open>set_trigger_func\<close> and the two
  properties assign nothing in the source and return no session here.
\<close>

theorem value_written_by_reset_and_triggered_entry_only:
  assumes "key w \<noteq> DEFAULT_VALUES" and "key w \<noteq> CONTROLLED_WIDGETS"
  shows "(s (key w) \<noteq> None \<longrightarrow> snd (init (key w) d tf fn s) (key w) = s (key w))
     \<and> snd (snd (set_trigger_fields w fs s)) (key w) = s (key w)
     \<and> (trigger_func w = None \<longrightarrow> snd (has_triggered w s) = s)
     \<and> snd (exit w exc s) (key w) = s (key w)
     \<and> (fst (has_triggered w s) \<noteq> Inr True \<longrightarrow> snd (enter w s) = snd (has_triggered w s))
     \<and> (fst (has_triggered w t) = Inr True \<longrightarrow>
          snd (enter w t) = (snd (has_triggered w t))(key w \<mapsto> default_value w))
     \<and> snd (reset w s) (key w) = Some (default_value w)"
proof (intro conjI impI)
  show "snd (init (key w) d tf fn s) (key w) = s (key w)" if "s (key w) \<noteq> None"
    using that assms by (simp add: init_elsewhere)
  show "snd (snd (set_trigger_fields w fs s)) (key w) = s (key w)"
    using assms(2) by (simp add: set_trigger_fields_def Let_def update_elsewhere)
  show "snd (has_triggered w s) = s" if "trigger_func w = None"
    using that by (rule has_triggered_no_func_session)
  show "snd (exit w exc s) (key w) = s (key w)"
    using assms(2) by (simp add: exit_def update_elsewhere)
  show "snd (enter w s) = snd (has_triggered w s)" if "fst (has_triggered w s) \<noteq> Inr True"
    using that by (cases "has_triggered w s") (auto simp add: enter_def split: sum.splits)
  show "snd (enter w t) = (snd (has_triggered w t))(key w \<mapsto> default_value w)"
    if "fst (has_triggered w t) = Inr True"
    using that by (cases "has_triggered w t") (auto simp add: enter_def split: sum.splits)
  show "snd (reset w s) (key w) = Some (default_value w)"
    using assms(2) by (simp add: reset_def update_elsewhere)
qed

text \<open>
  On the example page, with the fields as recorded (no trigger) and with \<^verbatim>\<open>field1\<close> edited
  (a trigger).
\<close>

theorem value_written_by_reset_and_triggered_entry_only_witness:
  "key demo_widget \<noteq> DEFAULT_VALUES \<and> key demo_widget \<noteq> CONTROLLED_WIDGETS
   \<and> demo_seeded (key demo_widget) \<noteq> None
   \<and> trigger_func demo_widget = None
   \<and> fst (has_triggered demo_widget demo_seeded) \<noteq> Inr True
   \<and> fst (has_triggered demo_widget (demo_seeded(''field1'' \<mapsto> VStr ''hello''))) = Inr True
   \<and> snd (init (key demo_widget) (VStr ''other default'') None None demo_seeded)
        (key demo_widget) = demo_seeded (key demo_widget)
   \<and> snd (snd (set_trigger_fields demo_widget [''field2''] demo_seeded)) (key demo_widget) =
        demo_seeded (key demo_widget)
   \<and> snd (has_triggered demo_widget demo_seeded) = demo_seeded
   \<and> snd (exit demo_widget None demo_seeded) (key demo_widget) = demo_seeded (key demo_widget)
   \<and> snd (enter demo_widget demo_seeded) = snd (has_triggered demo_widget demo_seeded)
   \<and> snd (enter demo_widget (demo_seeded(''field1'' \<mapsto> VStr ''hello''))) =
        (snd (has_triggered demo_widget (demo_seeded(''field1'' \<mapsto> VStr ''hello''))))
          (key demo_widget \<mapsto> default_value demo_widget)
   \<and> snd (reset demo_widget demo_seeded) (key demo_widget) = Some (default_value demo_widget)"
proof -
  let ?t = "demo_seeded(''field1'' \<mapsto> VStr ''hello'')"
  have k1: "key demo_widget \<noteq> DEFAULT_VALUES" and k2: "key demo_widget \<noteq> CONTROLLED_WIDGETS"
    by (simp_all add: demo_widget_def DEFAULT_VALUES_def CONTROLLED_WIDGETS_def)
  have a1: "demo_seeded (key demo_widget) \<noteq> None"
    by (simp add: demo_widget_def demo_seeded_at)
  have a2: "trigger_func demo_widget = None"
    by (simp add: demo_widget_def)
  have "has_triggered demo_widget demo_seeded = (Inr False, demo_seeded)"
    by (simp add: model_defs demo_defs Let_def fmpred_fmupd_iff)
  then have a3: "fst (has_triggered demo_widget demo_seeded) \<noteq> Inr True"
    by simp
  have "has_triggered demo_widget ?t = (Inr True, ?t)"
    by (simp add: model_defs demo_defs Let_def fmpred_fmupd_iff)
  then have a4: "fst (has_triggered demo_widget ?t) = Inr True"
    by simp
  note inst = value_written_by_reset_and_triggered_entry_only [OF k1 k2,
      where s = demo_seeded and t = ?t and d = "VStr ''other default''" and tf = None
        and fn = None and fs = "[''field2'']" and exc = None]
  note c1 = inst [THEN conjunct1, THEN mp, OF a1]
  note r1 = inst [THEN conjunct2]
  note c2 = r1 [THEN conjunct1]
  note r2 = r1 [THEN conjunct2]
  note c3 = r2 [THEN conjunct1, THEN mp, OF a2]
  note r3 = r2 [THEN conjunct2]
  note c4 = r3 [THEN conjunct1]
  note r4 = r3 [THEN conjunct2]
  note c5 = r4 [THEN conjunct1, THEN mp, OF a3]
  note r5 = r4 [THEN conjunct2]
  note c6 = r5 [THEN conjunct1, THEN mp, OF a4]
  note c7 = r5 [THEN conjunct2]
  show ?thesis
    using k1 k2 a1 a2 a3 a4 c1 c2 c3 c4 c5 c6 c7 by (intro conjI)
qed

text \<open>
  The user typed into the text input and edited \<^verbatim>\<open>field1\<close>: the entry, which is not
  \<^verbatim>\<open>reset\<close>, replaces what was typed by the default.
\<close>

theorem entry_writes_value_counterexample:
  "(demo_seeded(''my_text_input'' \<mapsto> VStr ''typed'', ''field1'' \<mapsto> VStr ''hello''))
       ''my_text_input'' = Some (VStr ''typed'')
   \<and> snd (enter demo_widget
         (demo_seeded(''my_text_input'' \<mapsto> VStr ''typed'', ''field1'' \<mapsto> VStr ''hello'')))
       ''my_text_input'' = Some (VStr ''initial value'')"
  by (simp add: model_defs demo_defs Let_def fmpred_fmupd_iff)

text \<open>
  C8. After construction the key is in the session, with the default as its value when it
  was not there before (and is not a registry name); and a key that is in the session is
  still there after \<^verbatim>\<open>reset\<close>, \<^verbatim>\<open>set_trigger_fields\<close>, the exit, the trigger check and the
  entry, and a further construction. With a trigger function set, the last two keep the key
  when the function, which is the caller's code, does.
\<close>

theorem controlled_key_stays_in_session:
  "k \<in> dom (snd (init k d tf fn s0))
   \<and> (s0 k = None \<and> k \<noteq> DEFAULT_VALUES \<and> k \<noteq> CONTROLLED_WIDGETS \<longrightarrow>
        snd (init k d tf fn s0) k = Some d)
   \<and> (key w \<in> dom s \<longrightarrow>
        key w \<in> dom (snd (init (key w) d' tf' fn' s))
        \<and> key w \<in> dom (snd (reset w s))
        \<and> key w \<in> dom (snd (snd (set_trigger_fields w fs s)))
        \<and> key w \<in> dom (snd (exit w exc s))
        \<and> (trigger_func w = None \<longrightarrow>
             key w \<in> dom (snd (has_triggered w s)) \<and> key w \<in> dom (snd (enter w s))))
   \<and> (trigger_func w' = Some f \<and> key w' \<in> dom (snd (f s')) \<longrightarrow>
        key w' \<in> dom (snd (has_triggered w' s')) \<and> key w' \<in> dom (snd (enter w' s')))"
proof (intro conjI impI)
  show "k \<in> dom (snd (init k d tf fn s0))"
    by (simp add: init_dom)
  show "snd (init k d tf fn s0) k = Some d"
    if "s0 k = None \<and> k \<noteq> DEFAULT_VALUES \<and> k \<noteq> CONTROLLED_WIDGETS"
    using that by (simp add: init_elsewhere)
  {
    assume in_s: "key w \<in> dom s"
    show "key w \<in> dom (snd (init (key w) d' tf' fn' s))"
      by (simp add: init_dom)
    show "key w \<in> dom (snd (reset w s))"
      unfolding reset_def by (rule update_dom) simp
    show "key w \<in> dom (snd (snd (set_trigger_fields w fs s)))"
      using update_dom [OF in_s, of "w\<lparr>trigger_fields := Some fs\<rparr>"]
      by (simp add: set_trigger_fields_def Let_def)
    show "key w \<in> dom (snd (exit w exc s))"
      unfolding exit_def using in_s by (rule update_dom)
    assume "trigger_func w = None"
    then show h: "key w \<in> dom (snd (has_triggered w s))"
      using in_s by (simp add: has_triggered_no_func_session)
    then show "key w \<in> dom (snd (enter w s))"
      by (rule enter_dom)
  }
  assume "trigger_func w' = Some f \<and> key w' \<in> dom (snd (f s'))"
  then show h: "key w' \<in> dom (snd (has_triggered w' s'))"
    by (simp add: has_triggered_def)
  then show "key w' \<in> dom (snd (enter w' s'))"
    by (rule enter_dom)
qed

text \<open>
  On the example page: the construction of the second widget, the operations of the text
  input, and the check and entry of the second widget.
\<close>

theorem controlled_key_stays_in_session_witness:
  "demo_seeded ''another_widget'' = None
   \<and> ''another_widget'' \<noteq> DEFAULT_VALUES \<and> ''another_widget'' \<noteq> CONTROLLED_WIDGETS
   \<and> key demo_widget \<in> dom demo_seeded
   \<and> trigger_func demo_widget = None
   \<and> trigger_func another_widget = Some field1_is_reset
   \<and> key another_widget \<in>
        dom (snd (field1_is_reset (demo_seeded(''another_widget'' \<mapsto> VStr ''typed''))))
   \<and> ''another_widget'' \<in>
        dom (snd (init ''another_widget'' (VStr ''another initial value'') None
                    (Some field1_is_reset) demo_seeded))
   \<and> snd (init ''another_widget'' (VStr ''another initial value'') None
             (Some field1_is_reset) demo_seeded) ''another_widget'' =
        Some (VStr ''another initial value'')
   \<and> key demo_widget \<in>
        dom (snd (init (key demo_widget) (VStr ''other default'') None None demo_seeded))
   \<and> key demo_widget \<in> dom (snd (reset demo_widget demo_seeded))
   \<and> key demo_widget \<in> dom (snd (snd (set_trigger_fields demo_widget [''field2''] demo_seeded)))
   \<and> key demo_widget \<in> dom (snd (exit demo_widget None demo_seeded))
   \<and> key demo_widget \<in> dom (snd (has_triggered demo_widget demo_seeded))
   \<and> key demo_widget \<in> dom (snd (enter demo_widget demo_seeded))
   \<and> key another_widget \<in>
        dom (snd (has_triggered another_widget (demo_seeded(''another_widget'' \<mapsto> VStr ''typed''))))
   \<and> key another_widget \<in>
        dom (snd (enter another_widget (demo_seeded(''another_widget'' \<mapsto> VStr ''typed''))))"
proof -
  let ?s' = "demo_seeded(''another_widget'' \<mapsto> VStr ''typed'')"
  have a1: "demo_seeded ''another_widget'' = None"
    and a2: "''another_widget'' \<noteq> DEFAULT_VALUES"
    and a3: "''another_widget'' \<noteq> CONTROLLED_WIDGETS"
    by (simp_all add: demo_seeded_at DEFAULT_VALUES_def CONTROLLED_WIDGETS_def)
  have b: "key demo_widget \<in> dom demo_seeded"
    by (simp add: demo_widget_def dom_def demo_seeded_at)
  have c: "trigger_func demo_widget = None"
    by (simp add: demo_widget_def)
  have d1: "trigger_func another_widget = Some field1_is_reset"
    by (simp add: another_widget_def)
  have d2: "key another_widget \<in> dom (snd (field1_is_reset ?s'))"
    by (simp add: another_widget_def field1_is_reset_def dom_def split: option.splits)
  note inst = controlled_key_stays_in_session [where k = "''another_widget''"
      and d = "VStr ''another initial value''" and tf = None and fn = "Some field1_is_reset"
      and ?s0.0 = demo_seeded and w = demo_widget and s = demo_seeded
      and d' = "VStr ''other default''" and tf' = None and fn' = None and fs = "[''field2'']"
      and exc = None and w' = another_widget and f = field1_is_reset and s' = ?s']
  note c1 = inst [THEN conjunct1]
  note r1 = inst [THEN conjunct2]
  note c2 = r1 [THEN conjunct1, THEN mp, OF conjI, OF a1 conjI, OF a2 a3]
  note r2 = r1 [THEN conjunct2]
  note m = r2 [THEN conjunct1, THEN mp, OF b]
  note m1 = m [THEN conjunct1]
  note m2 = m [THEN conjunct2, THEN conjunct1]
  note m3 = m [THEN conjunct2, THEN conjunct2, THEN conjunct1]
  note m4 = m [THEN conjunct2, THEN conjunct2, THEN conjunct2, THEN conjunct1]
  note n = m [THEN conjunct2, THEN conjunct2, THEN conjunct2, THEN conjunct2, THEN mp, OF c]
  note n1 = n [THEN conjunct1]
  note n2 = n [THEN conjunct2]
  note p = r2 [THEN conjunct2, THEN mp, OF conjI, OF d1 d2]
  note p1 = p [THEN conjunct1]
  note p2 = p [THEN conjunct2]
  show ?thesis
    using a1 a2 a3 b c d1 d2 c1 c2 m1 m2 m3 m4 n1 n2 p1 p2 by (intro conjI)
qed

end
